theory Spec2Isabelle
  imports Complex_Main
begin

section \<open>Data model of the Node2Vec + Isolation Forest detector\<close>

text \<open>
  The development embeds \<^verbatim>\<open>argus/detection/ml_detection.py\<close>
  (class \<^verbatim>\<open>Node2VecDetector\<close>, methods \<^verbatim>\<open>train\<close> and \<^verbatim>\<open>detect\<close>).

  Node identities are strings (the UAV identities), so \<^verbatim>\<open>str(node)\<close> is the
  identity. Scores are numpy floats; they are modelled as reals, so rounding, infinities
  and NaN are outside the model.
\<close>

type_synonym node = string
type_synonym embedding = "real list"

text \<open>
  The exceptions deriving from Python's \<^verbatim>\<open>Exception\<close>, the class that the handlers
  of \<^verbatim>\<open>train\<close> and \<^verbatim>\<open>detect\<close> catch. Interrupts (\<^verbatim>\<open>KeyboardInterrupt\<close>,
  \<^verbatim>\<open>SystemExit\<close>) are not failures of the computation and are outside the model.
\<close>

datatype py_exception = KeyError | ValueError | AttributeError | LibraryError string

text \<open>
  Modelled from the spec: the class \<^verbatim>\<open>UAV\<close> (module \<^verbatim>\<open>argus.core.uav\<close>) is not
  part of the sources at hand. The detector reads one attribute of it, the boolean
  ground-truth label \<^verbatim>\<open>is_legitimate\<close>.
\<close>

record uav =
  is_legitimate :: bool

text \<open>
  A node attribute of a networkx graph is an arbitrary Python object. Only the attribute
  stored under the key \<^verbatim>\<open>"uav"\<close> is read, and only its \<^verbatim>\<open>is_legitimate\<close> field; an
  object of any other class has no such field.
\<close>

datatype attr_value = UAVObj uav | OtherObj

type_synonym node_data = "string \<rightharpoonup> attr_value"

text \<open>
  A networkx graph: the node dictionary in insertion order (the order in which
  \<^verbatim>\<open>graph.nodes()\<close> iterates), each node with its attribute dictionary, and the edges.
\<close>

record nx_graph =
  nodes :: "(node \<times> node_data) list"
  edges :: "(node \<times> node) list"

text \<open>The keys of a well-formed node dictionary are distinct.\<close>

definition wf_graph :: "nx_graph \<Rightarrow> bool" where
  "wf_graph g \<longleftrightarrow> distinct (map fst (nodes g))"

text \<open>\<^verbatim>\<open>str(node)\<close> on a string.\<close>

definition str :: "node \<Rightarrow> string" where
  "str n = n"

text \<open>
  The keyed vectors \<^verbatim>\<open>model.wv\<close> of a trained Word2Vec model: indexing with a token
  that has no vector raises \<^verbatim>\<open>KeyError\<close> (here \<open>None\<close>).
\<close>

type_synonym word_vectors = "string \<rightharpoonup> embedding"

text \<open>
  A fitted scikit-learn \<^verbatim>\<open>IsolationForest\<close>, by the two methods that \<^verbatim>\<open>detect\<close>
  calls. Either may raise.
\<close>

record forest =
  decision_function :: "embedding list \<Rightarrow> py_exception + real list"
  predict :: "embedding list \<Rightarrow> py_exception + int list"

text \<open>
  The arguments that vary in the two \<^verbatim>\<open>Node2Vec(...)\<close> calls: dimensions,
  walk length, number of walks, p and q. The others are constants of the source
  (\<^verbatim>\<open>workers=1, quiet=True\<close>, then \<^verbatim>\<open>fit(window=10, min_count=1, batch_words=4)\<close>).
\<close>

type_synonym n2v_args = "int \<times> int \<times> int \<times> real \<times> real"

text \<open>
  The third-party libraries, as parameters of the model.

  \<^item> \<open>node2vec_fit\<close> stands for \<^verbatim>\<open>Node2Vec(graph, ...).fit(...)\<close>: it raises or returns
    the keyed vectors. The constructor is handed the graph object itself, so the
    library is able to change it; the first component is the graph as the library
    leaves it.
  \<^item> \<open>isolation_forest_fit\<close> stands for
    \<^verbatim>\<open>IsolationForest(n_estimators=100, contamination=c, random_state=42, n_jobs=1).fit(X)\<close>.
\<close>

record libs =
  node2vec_fit :: "n2v_args \<Rightarrow> nx_graph \<Rightarrow> nx_graph \<times> (py_exception + word_vectors)"
  isolation_forest_fit :: "real \<Rightarrow> embedding list \<Rightarrow> py_exception + forest"

text \<open>The attributes of a \<^verbatim>\<open>Node2VecDetector\<close> object.\<close>

record detector =
  name :: string
  embedding_dim :: int
  walk_length :: int
  num_walks :: int
  p :: real
  q :: real
  contamination :: real
  isolation_forest :: "forest option"
  node2vec_model :: "word_vectors option"
  baseline_embeddings :: "string \<rightharpoonup> embedding"
  baseline_graphs :: "nx_graph list"

text \<open>
  Modelled from the spec: the class \<^verbatim>\<open>DetectionResult\<close> (module \<^verbatim>\<open>argus.evaluation\<close>)
  is not part of the sources at hand. The spec describes it as a value type with the
  fields detector name, timestamp, set of flagged identities, mapping from identity to
  confidence score, mapping from identity to ground-truth legitimacy, and detection latency;
  the field names are those of the keyword arguments in \<^verbatim>\<open>detect\<close>.
\<close>

record DetectionResult =
  detector_name :: string
  timestamp :: real
  anomalous_uav_ids :: "node set"
  confidence_scores :: "node \<rightharpoonup> real"
  ground_truth :: "node \<rightharpoonup> bool"
  detection_time :: real

definition n2v_args_of :: "detector \<Rightarrow> n2v_args" where
  "n2v_args_of self = (embedding_dim self, walk_length self, num_walks self, p self, q self)"

section \<open>\<^verbatim>\<open>train\<close>\<close>

text \<open>
  Lines 114 to 121: the loop over \<^verbatim>\<open>training_graph.nodes()\<close>. A node without a vector
  is skipped (the \<^verbatim>\<open>KeyError\<close> is caught inside the loop); every other node's vector is
  stored in \<^verbatim>\<open>self.baseline_embeddings\<close> and appended to \<^verbatim>\<open>embeddings_list\<close>.
\<close>

fun train_embeddings ::
  "word_vectors \<Rightarrow> node list \<Rightarrow> (string \<rightharpoonup> embedding) \<Rightarrow> (string \<rightharpoonup> embedding) \<times> embedding list"
where
  "train_embeddings wv [] be = (be, [])"
| "train_embeddings wv (n # rest) be =
     (case wv (str n) of
        None \<Rightarrow> train_embeddings wv rest be
      | Some e \<Rightarrow>
          (case train_embeddings wv rest (be(str n \<mapsto> e)) of
             (be', es) \<Rightarrow> (be', e # es)))"

text \<open>
  \<^verbatim>\<open>train(self, clean_graphs)\<close>, returning the detector object as the call leaves it.
  The three early returns leave \<^verbatim>\<open>self.isolation_forest\<close> as it was; the handler of
  the outer \<^verbatim>\<open>try\<close> sets it to \<^verbatim>\<open>None\<close>. The library works on a copy of the last
  graph, so the caller's graphs are out of its reach.
\<close>

definition train :: "libs \<Rightarrow> detector \<Rightarrow> nx_graph list \<Rightarrow> detector" where
  "train env self0 clean_graphs =
     (let self1 = self0\<lparr>baseline_graphs := clean_graphs\<rparr> in
      if clean_graphs = [] then self1
      else
        let training_graph = last clean_graphs in
        if length (nodes training_graph) = 0 then self1
        else
          (case node2vec_fit env (n2v_args_of self1) training_graph of
             (training_graph', Inl e) \<Rightarrow> self1\<lparr>isolation_forest := None\<rparr>
           | (training_graph', Inr model) \<Rightarrow>
               let self2 = self1\<lparr>node2vec_model := Some model\<rparr> in
               (case train_embeddings model (map fst (nodes training_graph'))
                       (baseline_embeddings self2) of
                  (be, embeddings_list) \<Rightarrow>
                    let self3 = self2\<lparr>baseline_embeddings := be\<rparr> in
                    if embeddings_list = [] then self3
                    else
                      (case isolation_forest_fit env (contamination self3) embeddings_list of
                         Inl e \<Rightarrow> self3\<lparr>isolation_forest := None\<rparr>
                       | Inr f \<Rightarrow> self3\<lparr>isolation_forest := Some f\<rparr>))))"

section \<open>\<^verbatim>\<open>detect\<close>\<close>

text \<open>
  The result built at each of the three early exits of \<^verbatim>\<open>detect\<close> (the guard, the
  empty embedding list, the exception handler): the source writes the same constructor
  call out three times.
\<close>

definition empty_result :: "detector \<Rightarrow> real \<Rightarrow> real \<Rightarrow> DetectionResult" where
  "empty_result self dt ts =
     \<lparr>detector_name = name self, timestamp = ts, anomalous_uav_ids = {},
      confidence_scores = Map.empty, ground_truth = Map.empty, detection_time = dt\<rparr>"

text \<open>
  Lines 193 to 202: the loop that collects, in node order, the embeddings and the nodes
  that have one.
\<close>

fun collect_embeddings :: "word_vectors \<Rightarrow> node list \<Rightarrow> embedding list \<times> node list" where
  "collect_embeddings wv [] = ([], [])"
| "collect_embeddings wv (n # rest) =
     (case wv (str n) of
        None \<Rightarrow> collect_embeddings wv rest
      | Some e \<Rightarrow>
          (case collect_embeddings wv rest of
             (es, ns) \<Rightarrow> (e # es, n # ns)))"

text \<open>\<^verbatim>\<open>ndarray.min()\<close> and \<^verbatim>\<open>ndarray.max()\<close>: a \<^verbatim>\<open>ValueError\<close> on an empty array.\<close>

definition np_min :: "real list \<Rightarrow> py_exception + real" where
  "np_min xs = (if xs = [] then Inl ValueError else Inr (Min (set xs)))"

definition np_max :: "real list \<Rightarrow> py_exception + real" where
  "np_max xs = (if xs = [] then Inl ValueError else Inr (Max (set xs)))"

text \<open>Lines 228 to 231: the confidence of one raw score.\<close>

definition normalized_score :: "real \<Rightarrow> real \<Rightarrow> real \<Rightarrow> real" where
  "normalized_score score min_score score_range =
     (if score_range > 0 then 1 - (score - min_score) / score_range else 0.5)"

text \<open>
  Lines 226 to 237: the loop over \<^verbatim>\<open>zip(node_list, anomaly_scores, predictions)\<close>,
  which stops at the end of the shortest of the three. The accumulators are the
  dictionary \<^verbatim>\<open>confidence_scores\<close> and the set \<^verbatim>\<open>anomalous_uav_ids\<close>.
\<close>

fun score_loop ::
  "real \<Rightarrow> real \<Rightarrow> (node \<times> real \<times> int) list \<Rightarrow> (node \<rightharpoonup> real) \<Rightarrow> node set
     \<Rightarrow> (node \<rightharpoonup> real) \<times> node set"
where
  "score_loop min_score score_range [] cs an = (cs, an)"
| "score_loop min_score score_range ((n, score, pred) # rest) cs an =
     score_loop min_score score_range rest
       (cs(n \<mapsto> normalized_score score min_score score_range))
       (if pred = - 1 then insert n an else an)"

text \<open>
  \<^verbatim>\<open>graph.nodes[node]\<close>: the attribute dictionary of a node, \<^verbatim>\<open>KeyError\<close> for a node
  that the graph does not have.
\<close>

definition node_attrs :: "nx_graph \<Rightarrow> node \<Rightarrow> py_exception + node_data" where
  "node_attrs g n = (case map_of (nodes g) n of None \<Rightarrow> Inl KeyError | Some d \<Rightarrow> Inr d)"

text \<open>
  Lines 241 to 246, the body of the ground-truth loop for one node: the label of the
  object stored under \<^verbatim>\<open>"uav"\<close>, \<^verbatim>\<open>True\<close> when the key is absent, and an
  \<^verbatim>\<open>AttributeError\<close> when the object has no field \<^verbatim>\<open>is_legitimate\<close>.
\<close>

definition node_label :: "node_data \<Rightarrow> py_exception + bool" where
  "node_label d =
     (case d ''uav'' of
        None \<Rightarrow> Inr True
      | Some (UAVObj u) \<Rightarrow> Inr (is_legitimate u)
      | Some OtherObj \<Rightarrow> Inl AttributeError)"

text \<open>Lines 240 to 246: the loop over \<^verbatim>\<open>graph.nodes()\<close> that fills \<^verbatim>\<open>ground_truth\<close>.\<close>

fun ground_truth_loop ::
  "nx_graph \<Rightarrow> node list \<Rightarrow> (node \<rightharpoonup> bool) \<Rightarrow> py_exception + (node \<rightharpoonup> bool)"
where
  "ground_truth_loop g [] gt = Inr gt"
| "ground_truth_loop g (n # rest) gt =
     (case node_attrs g n of
        Inl e \<Rightarrow> Inl e
      | Inr d \<Rightarrow>
          (case node_label d of
             Inl e \<Rightarrow> Inl e
           | Inr b \<Rightarrow> ground_truth_loop g rest (gt(n \<mapsto> b))))"

text \<open>
  Lines 193 to 261: the body of the \<^verbatim>\<open>try\<close> block after the embedding model has been
  fitted. \<open>clock\<close> gives the successive readings of \<^verbatim>\<open>time.time()\<close> within the call:
  reading 0 is \<^verbatim>\<open>start_time\<close>, reading 1 enters \<^verbatim>\<open>detection_time\<close> and reading 2 is the
  \<^verbatim>\<open>timestamp\<close>. \<^verbatim>\<open>np.array\<close> on the list of vectors is the identity here.
\<close>

definition detect_scoring ::
  "(nat \<Rightarrow> real) \<Rightarrow> detector \<Rightarrow> forest \<Rightarrow> nx_graph \<Rightarrow> word_vectors
     \<Rightarrow> py_exception + DetectionResult"
where
  "detect_scoring clock self f graph current_model =
     (case collect_embeddings current_model (map fst (nodes graph)) of
        (embeddings_list, node_list) \<Rightarrow>
          if embeddings_list = [] then Inr (empty_result self (clock 1 - clock 0) (clock 2))
          else
            (case decision_function f embeddings_list of
               Inl e \<Rightarrow> Inl e
             | Inr anomaly_scores \<Rightarrow>
                 (case predict f embeddings_list of
                    Inl e \<Rightarrow> Inl e
                  | Inr predictions \<Rightarrow>
                      (case np_min anomaly_scores of
                         Inl e \<Rightarrow> Inl e
                       | Inr min_score \<Rightarrow>
                           (case np_max anomaly_scores of
                              Inl e \<Rightarrow> Inl e
                            | Inr max_score \<Rightarrow>
                                (case score_loop min_score (max_score - min_score)
                                        (zip node_list (zip anomaly_scores predictions))
                                        Map.empty {} of
                                   (cs, an) \<Rightarrow>
                                     (case ground_truth_loop graph (map fst (nodes graph))
                                             Map.empty of
                                        Inl e \<Rightarrow> Inl e
                                      | Inr gt \<Rightarrow>
                                          Inr \<lparr>detector_name = name self,
                                               timestamp = clock 2,
                                               anomalous_uav_ids = an,
                                               confidence_scores = cs,
                                               ground_truth = gt,
                                               detection_time = clock 1 - clock 0\<rparr>)))))))"

text \<open>
  Lines 177 to 261: the whole \<^verbatim>\<open>try\<close> block. The first component is the graph object
  as the call leaves it: \<^verbatim>\<open>detect\<close> itself only reads the graph, and (unlike \<^verbatim>\<open>train\<close>)
  hands the caller's object, not a copy, to the library.
\<close>

definition detect_try ::
  "libs \<Rightarrow> (nat \<Rightarrow> real) \<Rightarrow> detector \<Rightarrow> forest \<Rightarrow> nx_graph
     \<Rightarrow> nx_graph \<times> (py_exception + DetectionResult)"
where
  "detect_try env clock self f graph =
     (case node2vec_fit env (n2v_args_of self) graph of
        (graph', Inl e) \<Rightarrow> (graph', Inl e)
      | (graph', Inr current_model) \<Rightarrow>
          (graph', detect_scoring clock self f graph' current_model))"

text \<open>
  \<^verbatim>\<open>detect(self, graph)\<close>: the graph as the call leaves it, and the result. The guard of
  line 166 returns before the library is called; the handler of line 263 turns every
  exception of the \<^verbatim>\<open>try\<close> block into the empty result.
\<close>

definition detect ::
  "libs \<Rightarrow> (nat \<Rightarrow> real) \<Rightarrow> detector \<Rightarrow> nx_graph \<Rightarrow> nx_graph \<times> DetectionResult"
where
  "detect env clock self graph =
     (if length (nodes graph) = 0 then
        (graph, empty_result self (clock 1 - clock 0) (clock 2))
      else
        (case isolation_forest self of
           None \<Rightarrow> (graph, empty_result self (clock 1 - clock 0) (clock 2))
         | Some f \<Rightarrow>
             (case detect_try env clock self f graph of
                (graph', Inl e) \<Rightarrow> (graph', empty_result self (clock 1 - clock 0) (clock 2))
              | (graph', Inr result) \<Rightarrow> (graph', result))))"

section \<open>Random sources of the libraries\<close>







section \<open>Test fixtures\<close>

text \<open>
  A three-node graph, libraries that succeed, libraries that fail, and a detector before
  and after training, for evaluating the model on concrete inputs.
\<close>

definition demo_graph :: nx_graph where
  "demo_graph =
     \<lparr>nodes = [(''a'', [''uav'' \<mapsto> UAVObj \<lparr>is_legitimate = True\<rparr>]),
               (''b'', [''uav'' \<mapsto> UAVObj \<lparr>is_legitimate = False\<rparr>]),
               (''c'', Map.empty)],
      edges = [(''a'', ''b''), (''b'', ''c'')]\<rparr>"

definition demo_wv :: word_vectors where
  "demo_wv = [''a'' \<mapsto> [0.2], ''b'' \<mapsto> [- 0.1], ''c'' \<mapsto> [0.05]]"

definition demo_forest :: forest where
  "demo_forest =
     \<lparr>decision_function = (\<lambda>X. Inr (map sum_list X)),
      predict = (\<lambda>X. Inr (map (\<lambda>e. if sum_list e < 0 then - 1 else 1) X))\<rparr>"

definition demo_libs :: libs where
  "demo_libs =
     \<lparr>node2vec_fit = (\<lambda>args g. (g, Inr demo_wv)),
      isolation_forest_fit = (\<lambda>c X. Inr demo_forest)\<rparr>"

definition flat_forest :: forest where
  "flat_forest =
     \<lparr>decision_function = (\<lambda>X. Inr (map (\<lambda>e. 0.1) X)),
      predict = (\<lambda>X. Inr (map (\<lambda>e. 1) X))\<rparr>"

definition failing_libs :: libs where
  "failing_libs =
     \<lparr>node2vec_fit = (\<lambda>args g. (g, Inl (LibraryError ''walks''))),
      isolation_forest_fit = (\<lambda>c X. Inl (LibraryError ''fit''))\<rparr>"

definition fresh_detector :: detector where
  "fresh_detector =
     \<lparr>name = ''node2vec'', embedding_dim = 128, walk_length = 30, num_walks = 200,
      p = 1, q = 1, contamination = 0.1, isolation_forest = None, node2vec_model = None,
      baseline_embeddings = Map.empty, baseline_graphs = []\<rparr>"

definition trained_detector :: detector where
  "trained_detector = train demo_libs fresh_detector [demo_graph]"

definition demo_clock :: "nat \<Rightarrow> real" where
  "demo_clock k = 100 + real k"

text \<open>A wall clock that is set back by five seconds after its first reading.\<close>

definition backward_clock :: "nat \<Rightarrow> real" where
  "backward_clock k = (if k = 0 then 10 else 5)"





section \<open>Properties of the loops\<close>

lemma normalized_score_bounds:
  assumes "min_score \<le> s" and "s \<le> max_score"
  shows "0 \<le> normalized_score s min_score (max_score - min_score)"
    and "normalized_score s min_score (max_score - min_score) \<le> 1"
proof -
  show "0 \<le> normalized_score s min_score (max_score - min_score)"
  proof (cases "max_score - min_score > 0")
    case True
    then have "(s - min_score) / (max_score - min_score) \<le> 1"
      using assms by (simp add: divide_le_eq_1)
    then show ?thesis using True by (simp add: normalized_score_def)
  next
    case False
    then show ?thesis by (simp add: normalized_score_def)
  qed
  show "normalized_score s min_score (max_score - min_score) \<le> 1"
  proof (cases "max_score - min_score > 0")
    case True
    then have "0 \<le> (s - min_score) / (max_score - min_score)"
      using assms by simp
    then show ?thesis using True by (simp add: normalized_score_def)
  next
    case False
    then show ?thesis by (simp add: normalized_score_def)
  qed
qed

lemma normalized_score_antimono:
  "s \<le> s' \<Longrightarrow> normalized_score s' m r \<le> normalized_score s m r"
  by (simp add: normalized_score_def divide_right_mono)

lemma score_loop_Cons:
  "score_loop m r ((n, s, pr) # rest) cs an =
     score_loop m r rest (cs(n \<mapsto> normalized_score s m r))
       (if pr = - 1 then insert n an else an)"
  by simp

lemma score_loop_dom:
  "dom (fst (score_loop m r zs cs an)) = dom cs \<union> fst ` set zs"
proof (induction zs arbitrary: cs an)
  case Nil
  show ?case by simp
next
  case (Cons z rest)
  obtain n s pr where z: "z = (n, s, pr)" by (cases z) auto
  show ?case unfolding z score_loop_Cons Cons.IH by auto
qed

lemma score_loop_other:
  "n \<notin> fst ` set zs \<Longrightarrow> fst (score_loop m r zs cs an) n = cs n"
proof (induction zs arbitrary: cs an)
  case Nil
  show ?case by simp
next
  case (Cons z rest)
  obtain n' s pr where z: "z = (n', s, pr)" by (cases z) auto
  have "n \<notin> fst ` set rest" and "n \<noteq> n'" using Cons.prems z by auto
  then show ?case unfolding z score_loop_Cons using Cons.IH by simp
qed

lemma score_loop_value:
  "distinct (map fst zs) \<Longrightarrow> (n, s, pr) \<in> set zs \<Longrightarrow>
   fst (score_loop m r zs cs an) n = Some (normalized_score s m r)"
proof (induction zs arbitrary: cs an)
  case Nil
  then show ?case by simp
next
  case (Cons z rest)
  obtain n' s' pr' where z: "z = (n', s', pr')" by (cases z) auto
  show ?case
  proof (cases "(n, s, pr) = z")
    case True
    have "fst z \<notin> set (map fst rest)" using Cons.prems(1) by simp
    then have "n \<notin> fst ` set rest" using True by force
    then have "fst (score_loop m r rest (cs(n \<mapsto> normalized_score s m r))
                 (if pr = - 1 then insert n an else an)) n
               = (cs(n \<mapsto> normalized_score s m r)) n"
      by (rule score_loop_other)
    then show ?thesis using True [symmetric] unfolding score_loop_Cons by simp
  next
    case False
    then have mem: "(n, s, pr) \<in> set rest" using Cons.prems(2) by auto
    have dist: "distinct (map fst rest)" using Cons.prems(1) by simp
    show ?thesis unfolding z score_loop_Cons by (rule Cons.IH [OF dist mem])
  qed
qed

lemma score_loop_flag_set:
  "snd (score_loop m r zs cs an) = an \<union> {n. \<exists>s. (n, s, - 1) \<in> set zs}"
proof (induction zs arbitrary: cs an)
  case Nil
  show ?case by simp
next
  case (Cons z rest)
  obtain n s pr where z: "z = (n, s, pr)" by (cases z) auto
  show ?case unfolding z score_loop_Cons Cons.IH by auto
qed

lemma score_loop_flagged:
  "an \<subseteq> dom cs \<Longrightarrow> snd (score_loop m r zs cs an) \<subseteq> dom (fst (score_loop m r zs cs an))"
  unfolding score_loop_flag_set score_loop_dom by force

lemma collect_embeddings_filter:
  "snd (collect_embeddings wv ns) = filter (\<lambda>n. wv (str n) \<noteq> None) ns"
  by (induction ns) (auto split: option.splits prod.splits)

lemma collect_embeddings_map:
  "fst (collect_embeddings wv ns) = map (\<lambda>n. the (wv (str n))) (snd (collect_embeddings wv ns))"
  by (induction ns) (auto split: option.splits prod.splits)

lemma ground_truth_loop_dom:
  "ground_truth_loop g ns gt0 = Inr gt \<Longrightarrow> dom gt = dom gt0 \<union> set ns"
  by (induction ns arbitrary: gt0) (auto split: sum.splits)

lemma ground_truth_loop_other:
  "ground_truth_loop g ns gt0 = Inr gt \<Longrightarrow> n \<notin> set ns \<Longrightarrow> gt n = gt0 n"
  by (induction ns arbitrary: gt0) (auto split: sum.splits)

lemma ground_truth_loop_value:
  "ground_truth_loop g ns gt0 = Inr gt \<Longrightarrow> n \<in> set ns \<Longrightarrow>
   \<exists>d b. node_attrs g n = Inr d \<and> node_label d = Inr b \<and> gt n = Some b"
proof (induction ns arbitrary: gt0)
  case Nil
  then show ?case by simp
next
  case (Cons a ns)
  from Cons.prems(1) obtain d b where
    a: "node_attrs g a = Inr d" "node_label d = Inr b"
    and rest: "ground_truth_loop g ns (gt0(a \<mapsto> b)) = Inr gt"
    by (auto split: sum.splits)
  show ?case
  proof (cases "n \<in> set ns")
    case True
    then show ?thesis using Cons.IH [OF rest] by simp
  next
    case False
    then have "n = a" using Cons.prems(2) by simp
    moreover have "gt a = Some b"
      using ground_truth_loop_other [OF rest] False \<open>n = a\<close> by simp
    ultimately show ?thesis using a by simp
  qed
qed

lemma ground_truth_loop_succeeds:
  "\<forall>n\<in>set ns. \<exists>d b. node_attrs g n = Inr d \<and> node_label d = Inr b \<Longrightarrow>
   \<exists>gt. ground_truth_loop g ns gt0 = Inr gt"
  by (induction ns arbitrary: gt0) (auto split: sum.splits)

lemma detect_cases:
  "snd (detect env clock self graph) = empty_result self (clock 1 - clock 0) (clock 2) \<or>
   (\<exists>f wv embs nl scores preds gt.
      isolation_forest self = Some f \<and> nodes graph \<noteq> [] \<and>
      snd (node2vec_fit env (n2v_args_of self) graph) = Inr wv \<and>
      collect_embeddings wv (map fst (nodes (fst (node2vec_fit env (n2v_args_of self) graph))))
        = (embs, nl) \<and>
      embs \<noteq> [] \<and> decision_function f embs = Inr scores \<and> predict f embs = Inr preds \<and>
      scores \<noteq> [] \<and>
      ground_truth_loop (fst (node2vec_fit env (n2v_args_of self) graph))
        (map fst (nodes (fst (node2vec_fit env (n2v_args_of self) graph)))) Map.empty = Inr gt \<and>
      snd (detect env clock self graph) =
        \<lparr>detector_name = name self, timestamp = clock 2,
         anomalous_uav_ids =
           snd (score_loop (Min (set scores)) (Max (set scores) - Min (set scores))
                  (zip nl (zip scores preds)) Map.empty {}),
         confidence_scores =
           fst (score_loop (Min (set scores)) (Max (set scores) - Min (set scores))
                  (zip nl (zip scores preds)) Map.empty {}),
         ground_truth = gt, detection_time = clock 1 - clock 0\<rparr>)"
  by (auto simp: detect_def detect_try_def detect_scoring_def np_min_def np_max_def
           split: option.splits sum.splits prod.splits if_splits)

lemma zip3_nth:
  assumes "i < length ns" "i < length ss" "i < length ps"
  shows "(ns ! i, ss ! i, ps ! i) \<in> set (zip ns (zip ss ps))"
proof -
  have "i < length (zip ns (zip ss ps))" using assms by simp
  moreover have "zip ns (zip ss ps) ! i = (ns ! i, ss ! i, ps ! i)" using assms by simp
  ultimately show ?thesis by (metis nth_mem)
qed

lemma collect_embeddings_distinct:
  "distinct ns \<Longrightarrow> distinct (snd (collect_embeddings wv ns))"
  by (simp add: collect_embeddings_filter)

lemma detect_scores_present:
  assumes "confidence_scores (snd (detect env clock self graph)) \<noteq> Map.empty"
    and "isolation_forest self = Some f"
    and "node2vec_fit env (n2v_args_of self) graph = (graph', Inr wv)"
    and "collect_embeddings wv (map fst (nodes graph')) = (embs, node_list)"
    and "decision_function f embs = Inr scores"
    and "predict f embs = Inr preds"
  shows "confidence_scores (snd (detect env clock self graph)) =
           fst (score_loop (Min (set scores)) (Max (set scores) - Min (set scores))
                  (zip node_list (zip scores preds)) Map.empty {})"
    and "anomalous_uav_ids (snd (detect env clock self graph)) =
           snd (score_loop (Min (set scores)) (Max (set scores) - Min (set scores))
                  (zip node_list (zip scores preds)) Map.empty {})"
  using detect_cases [of env clock self graph] assms
  by (auto simp: empty_result_def)

lemma collect_embeddings_subset:
  "set (snd (collect_embeddings wv ns)) \<subseteq> set ns"
  by (simp add: collect_embeddings_filter)

lemma collect_embeddings_all:
  "\<forall>n\<in>set ns. wv (str n) \<noteq> None \<Longrightarrow> snd (collect_embeddings wv ns) = ns"
  by (simp add: collect_embeddings_filter)

lemma collect_embeddings_length:
  "length (fst (collect_embeddings wv ns)) = length (snd (collect_embeddings wv ns))"
  by (simp add: collect_embeddings_map)

lemma fst_set_zip3:
  "length ss = length ns \<Longrightarrow> length ps = length ns \<Longrightarrow>
   fst ` set (zip ns (zip ss ps)) = set ns"
proof -
  assume "length ss = length ns" "length ps = length ns"
  then have "map fst (zip ns (zip ss ps)) = ns" by (simp add: map_fst_zip)
  then have "set (map fst (zip ns (zip ss ps))) = set ns" by simp
  then show ?thesis by simp
qed

lemma detect_success:
  assumes "isolation_forest self = Some f"
    and "node2vec_fit env (n2v_args_of self) graph = (graph', Inr wv)"
    and "nodes graph \<noteq> []"
    and "collect_embeddings wv (map fst (nodes graph')) = (embs, nl)"
    and "embs \<noteq> []"
    and "decision_function f embs = Inr scores"
    and "scores \<noteq> []"
    and "predict f embs = Inr preds"
    and "ground_truth_loop graph' (map fst (nodes graph')) Map.empty = Inr gt"
  shows "snd (detect env clock self graph) =
           \<lparr>detector_name = name self, timestamp = clock 2,
            anomalous_uav_ids =
              snd (score_loop (Min (set scores)) (Max (set scores) - Min (set scores))
                     (zip nl (zip scores preds)) Map.empty {}),
            confidence_scores =
              fst (score_loop (Min (set scores)) (Max (set scores) - Min (set scores))
                     (zip nl (zip scores preds)) Map.empty {}),
            ground_truth = gt, detection_time = clock 1 - clock 0\<rparr>"
  using assms
  by (simp add: detect_def detect_try_def detect_scoring_def np_min_def np_max_def
           split: prod.splits)

lemma node_attrs_wf:
  "wf_graph g \<Longrightarrow> (n, d) \<in> set (nodes g) \<Longrightarrow> node_attrs g n = Inr d"
  by (simp add: wf_graph_def node_attrs_def)

lemma node_label_cases:
  "node_label d = Inr b \<Longrightarrow>
   (d ''uav'' = None \<and> b) \<or> (\<exists>u. d ''uav'' = Some (UAVObj u) \<and> b = is_legitimate u)"
  by (auto simp: node_label_def split: option.splits attr_value.splits)

lemma train_embeddings_list:
  "snd (train_embeddings wv ns be) = fst (collect_embeddings wv ns)"
proof (induction ns arbitrary: be)
  case Nil
  show ?case by simp
next
  case (Cons a ns)
  show ?case
  proof (cases "wv (str a)")
    case None
    then show ?thesis using Cons.IH by simp
  next
    case (Some e)
    obtain be' es where te: "train_embeddings wv ns (be(str a \<mapsto> e)) = (be', es)"
      by (cases "train_embeddings wv ns (be(str a \<mapsto> e))") auto
    obtain cs ms where ce: "collect_embeddings wv ns = (cs, ms)"
      by (cases "collect_embeddings wv ns") auto
    have "snd (train_embeddings wv ns (be(str a \<mapsto> e))) = fst (collect_embeddings wv ns)"
      by (rule Cons.IH)
    then have "snd (be', es) = fst (cs, ms)" unfolding te ce .
    then have "es = cs" by simp
    then show ?thesis using Some te ce by simp
  qed
qed

lemma n2v_args_of_baseline_graphs [simp]:
  "n2v_args_of (self\<lparr>baseline_graphs := gs\<rparr>) = n2v_args_of self"
  by (simp add: n2v_args_of_def)

lemma collect_embeddings_none:
  "\<forall>n\<in>set ns. wv (str n) = None \<Longrightarrow> fst (collect_embeddings wv ns) = []"
  by (induction ns) auto

section \<open>Properties of \<^verbatim>\<open>detect\<close> and \<^verbatim>\<open>train\<close>\<close>

text \<open>The definitions to unfold when the model is evaluated on the fixtures.\<close>

lemmas demo_defs = demo_graph_def demo_wv_def demo_forest_def flat_forest_def demo_libs_def
  failing_libs_def
  fresh_detector_def trained_detector_def demo_clock_def
lemmas model_defs = detect_def detect_try_def detect_scoring_def train_def n2v_args_of_def
  str_def np_min_def np_max_def normalized_score_def node_attrs_def node_label_def
  empty_result_def wf_graph_def

text \<open>
  Claim C1. On a trained detector, for a call that returns scores: with \<open>scores\<close> the
  decision-function values of the batch and \<open>node_list\<close> the nodes that have an
  embedding, the confidence of the \<open>i\<close>-th such node lies in \<open>[0, 1]\<close>, is
  \<open>1 - (scores ! i - min) / (max - min)\<close> when the batch has two different scores and
  \<open>1/2\<close> when all scores of the batch are equal, and is at least the confidence of every
  node whose raw score is not lower (so the lowest raw score has the highest confidence).
  The loop runs over the zip of nodes, scores and predictions, hence the three bounds on
  \<open>i\<close>. The scores are reals here.
\<close>

theorem detect_confidence_normalized:
  assumes trained: "isolation_forest self = Some f"
    and fit: "node2vec_fit env (n2v_args_of self) graph = (graph', Inr wv)"
    and wf: "wf_graph graph'"
    and emb: "collect_embeddings wv (map fst (nodes graph')) = (embs, node_list)"
    and scores: "decision_function f embs = Inr scores"
    and preds: "predict f embs = Inr preds"
    and ok: "confidence_scores (snd (detect env clock self graph)) \<noteq> Map.empty"
    and i: "i < length node_list" "i < length scores" "i < length preds"
  shows "\<exists>c. confidence_scores (snd (detect env clock self graph)) (node_list ! i) = Some c \<and>
           0 \<le> c \<and> c \<le> 1 \<and>
           c = (if Min (set scores) < Max (set scores)
                then 1 - (scores ! i - Min (set scores)) / (Max (set scores) - Min (set scores))
                else 1 / 2) \<and>
           ((\<forall>j < length scores. scores ! j = scores ! i) \<longrightarrow> c = 1 / 2) \<and>
           (\<forall>j c'. j < length node_list \<and> j < length scores \<and> j < length preds \<and>
              confidence_scores (snd (detect env clock self graph)) (node_list ! j) = Some c' \<and>
              scores ! i \<le> scores ! j \<longrightarrow> c' \<le> c)"
proof -
  let ?lo = "Min (set scores)" and ?hi = "Max (set scores)"
  let ?zs = "zip node_list (zip scores preds)"
  let ?cs = "confidence_scores (snd (detect env clock self graph))"
  have cs: "?cs = fst (score_loop ?lo (?hi - ?lo) ?zs Map.empty {})"
    by (rule detect_scores_present(1) [OF ok trained fit emb scores preds])
  have "distinct (map fst (nodes graph'))" using wf by (simp add: wf_graph_def)
  then have "distinct (snd (collect_embeddings wv (map fst (nodes graph'))))"
    by (rule collect_embeddings_distinct)
  then have "distinct node_list" using emb by simp
  then have "distinct (take (min (length node_list) (length (zip scores preds))) node_list)"
    by (rule distinct_take)
  then have dist: "distinct (map fst ?zs)"
    by (simp only: map_fst_zip_take)
  have val: "?cs (node_list ! k) = Some (normalized_score (scores ! k) ?lo (?hi - ?lo))"
    if "k < length node_list" "k < length scores" "k < length preds" for k
    unfolding cs using dist zip3_nth [OF that] by (rule score_loop_value)
  have lo: "?lo \<le> scores ! k" if "k < length scores" for k
    using that by (intro Min_le) simp_all
  have hi: "scores ! k \<le> ?hi" if "k < length scores" for k
    using that by (intro Max_ge) simp_all
  let ?c = "normalized_score (scores ! i) ?lo (?hi - ?lo)"
  have c1: "?cs (node_list ! i) = Some ?c" using val [OF i] .
  have c2: "0 \<le> ?c"
    using lo [OF i(2)] hi [OF i(2)] by (rule normalized_score_bounds(1))
  have c3: "?c \<le> 1"
    using lo [OF i(2)] hi [OF i(2)] by (rule normalized_score_bounds(2))
  have c4: "?c = (if ?lo < ?hi then 1 - (scores ! i - ?lo) / (?hi - ?lo) else 1 / 2)"
    by (simp add: normalized_score_def)
  have c5: "(\<forall>j < length scores. scores ! j = scores ! i) \<longrightarrow> ?c = 1 / 2"
  proof
    assume all: "\<forall>j < length scores. scores ! j = scores ! i"
    have "set scores = {scores ! i}"
    proof
      show "set scores \<subseteq> {scores ! i}"
      proof
        fix x assume "x \<in> set scores"
        then obtain j where "j < length scores" "scores ! j = x"
          by (auto simp: in_set_conv_nth)
        then show "x \<in> {scores ! i}" using all by auto
      qed
      show "{scores ! i} \<subseteq> set scores" using i(2) by simp
    qed
    then show "?c = 1 / 2" by (simp add: normalized_score_def)
  qed
  have c6: "\<forall>j c'. j < length node_list \<and> j < length scores \<and> j < length preds \<and>
              ?cs (node_list ! j) = Some c' \<and> scores ! i \<le> scores ! j \<longrightarrow> c' \<le> ?c"
  proof (intro allI impI)
    fix j c'
    assume a: "j < length node_list \<and> j < length scores \<and> j < length preds \<and>
              ?cs (node_list ! j) = Some c' \<and> scores ! i \<le> scores ! j"
    then have "?cs (node_list ! j) = Some (normalized_score (scores ! j) ?lo (?hi - ?lo))"
      using val [of j] by simp
    then have "c' = normalized_score (scores ! j) ?lo (?hi - ?lo)" using a by simp
    moreover have "normalized_score (scores ! j) ?lo (?hi - ?lo) \<le> ?c"
      using a by (intro normalized_score_antimono) simp
    ultimately show "c' \<le> ?c" by simp
  qed
  show ?thesis
    by (rule exI [of _ ?c]) (intro conjI c1 c2 c3 c4 c5 c6)
qed

theorem detect_confidence_normalized_witness:
  "wf_graph demo_graph \<and>
   confidence_scores (snd (detect demo_libs demo_clock trained_detector demo_graph)) ''b'' = Some 1 \<and>
   confidence_scores (snd (detect demo_libs demo_clock trained_detector demo_graph)) ''a'' = Some 0 \<and>
   confidence_scores
     (snd (detect demo_libs demo_clock (fresh_detector\<lparr>isolation_forest := Some flat_forest\<rparr>)
        demo_graph)) ''b'' = Some (1 / 2)"
proof -
  let ?flat = "fresh_detector\<lparr>isolation_forest := Some flat_forest\<rparr>"
  have t1: "isolation_forest trained_detector = Some demo_forest"
    by (simp add: demo_defs model_defs)
  have t2: "isolation_forest ?flat = Some flat_forest"
    by simp
  have fit1: "node2vec_fit demo_libs (n2v_args_of trained_detector) demo_graph
                = (demo_graph, Inr demo_wv)"
    by (simp add: demo_libs_def)
  have fit2: "node2vec_fit demo_libs (n2v_args_of ?flat) demo_graph = (demo_graph, Inr demo_wv)"
    by (simp add: demo_libs_def)
  have wf: "wf_graph demo_graph"
    by (simp add: wf_graph_def demo_graph_def)
  have emb: "collect_embeddings demo_wv (map fst (nodes demo_graph))
               = ([[0.2], [- 0.1], [0.05]], [''a'', ''b'', ''c''])"
    by (simp add: demo_graph_def demo_wv_def str_def)
  have s1: "decision_function demo_forest [[0.2], [- 0.1], [0.05]] = Inr [0.2, - 0.1, 0.05]"
    by (simp add: demo_forest_def)
  have p1: "predict demo_forest [[0.2], [- 0.1], [0.05]] = Inr [1, - 1, 1]"
    by (simp add: demo_forest_def)
  have s2: "decision_function flat_forest [[0.2], [- 0.1], [0.05]] = Inr [0.1, 0.1, 0.1]"
    by (simp add: flat_forest_def)
  have p2: "predict flat_forest [[0.2], [- 0.1], [0.05]] = Inr [1, 1, 1]"
    by (simp add: flat_forest_def)
  have ok1: "confidence_scores (snd (detect demo_libs demo_clock trained_detector demo_graph))
               \<noteq> Map.empty"
  proof
    assume "confidence_scores (snd (detect demo_libs demo_clock trained_detector demo_graph))
              = Map.empty"
    then have "confidence_scores (snd (detect demo_libs demo_clock trained_detector demo_graph))
                 ''c'' = None"
      by simp
    then show False by (simp add: demo_defs model_defs)
  qed
  have ok2: "confidence_scores (snd (detect demo_libs demo_clock ?flat demo_graph)) \<noteq> Map.empty"
  proof
    assume "confidence_scores (snd (detect demo_libs demo_clock ?flat demo_graph)) = Map.empty"
    then have "confidence_scores (snd (detect demo_libs demo_clock ?flat demo_graph)) ''c'' = None"
      by simp
    then show False by (simp add: demo_defs model_defs flat_forest_def)
  qed
  have b: "confidence_scores (snd (detect demo_libs demo_clock trained_detector demo_graph)) ''b''
             = Some 1"
    using detect_confidence_normalized [OF t1 fit1 wf emb s1 p1 ok1, of 1] by simp
  have a: "confidence_scores (snd (detect demo_libs demo_clock trained_detector demo_graph)) ''a''
             = Some 0"
    using detect_confidence_normalized [OF t1 fit1 wf emb s1 p1 ok1, of 0] by simp
  have h: "confidence_scores (snd (detect demo_libs demo_clock ?flat demo_graph)) ''b''
             = Some (1 / 2)"
    using detect_confidence_normalized [OF t2 fit2 wf emb s2 p2 ok2, of 1] by auto
  show ?thesis using wf a b h by simp
qed

text \<open>
  Claim C2, as amended. When the graph has no nodes, or the detector holds no fitted
  isolation forest, \<^verbatim>\<open>detect\<close> returns a result (it has no way to raise) whose flagged
  set, confidence map and ground-truth map are empty. The detection time is the second
  reading of \<^verbatim>\<open>time.time()\<close> (line 167) minus the first (line 160): it is non-negative
  when the wall clock has not been set back between the two readings.
\<close>

theorem detect_empty_or_untrained:
  assumes "nodes graph = [] \<or> isolation_forest self = None"
  shows "anomalous_uav_ids (snd (detect env clock self graph)) = {} \<and>
         confidence_scores (snd (detect env clock self graph)) = Map.empty \<and>
         ground_truth (snd (detect env clock self graph)) = Map.empty \<and>
         detection_time (snd (detect env clock self graph)) = clock 1 - clock 0 \<and>
         (clock 0 \<le> clock 1 \<longrightarrow> 0 \<le> detection_time (snd (detect env clock self graph)))"
  using assms by (auto simp: detect_def empty_result_def)

theorem detect_empty_or_untrained_witness:
  "nodes \<lparr>nodes = [], edges = []\<rparr> = [] \<and> isolation_forest fresh_detector = None \<and>
   demo_clock 0 \<le> demo_clock 1 \<and>
   confidence_scores (snd (detect demo_libs demo_clock trained_detector \<lparr>nodes = [], edges = []\<rparr>))
     = Map.empty \<and>
   0 \<le> detection_time (snd (detect demo_libs demo_clock trained_detector \<lparr>nodes = [], edges = []\<rparr>)) \<and>
   ground_truth (snd (detect demo_libs demo_clock fresh_detector demo_graph)) = Map.empty \<and>
   0 \<le> detection_time (snd (detect demo_libs demo_clock fresh_detector demo_graph))"
proof -
  have h1: "nodes \<lparr>nodes = [], edges = []\<rparr> = [] \<or> isolation_forest trained_detector = None"
    by simp
  have h2: "nodes demo_graph = [] \<or> isolation_forest fresh_detector = None"
    by (simp add: fresh_detector_def)
  have h3: "demo_clock 0 \<le> demo_clock 1"
    by (simp add: demo_clock_def)
  show ?thesis
    using detect_empty_or_untrained [OF h1, of demo_libs demo_clock]
      detect_empty_or_untrained [OF h2, of demo_libs demo_clock] h3
    by (simp add: fresh_detector_def)
qed

text \<open>
  The detection time is not non-negative for every call: \<^verbatim>\<open>time.time()\<close> is the wall
  clock, which can be set back between the two readings, and then the empty result of an
  empty graph carries a negative detection time.
\<close>

theorem detect_empty_or_untrained_counterexample:
  "nodes \<lparr>nodes = [], edges = []\<rparr> = [] \<and>
   detection_time
     (snd (detect demo_libs backward_clock trained_detector \<lparr>nodes = [], edges = []\<rparr>)) = - 5"
  by (simp add: detect_def empty_result_def backward_clock_def)

text \<open>
  Claim C3, as amended. When the graph has no nodes or the detector is untrained, both
  maps of the result are empty. When the detector is trained, the node keys of the graph
  are distinct, the embedding library leaves the graph as it is and has a vector for
  every node, the forest returns one score and one prediction for each embedding, and
  every object stored under \<^verbatim>\<open>"uav"\<close> is a UAV, the keys of the confidence map and the
  keys of the ground-truth map are exactly the nodes of the graph.
\<close>

theorem detect_result_keys:
  "(nodes graph = [] \<or> isolation_forest self = None \<longrightarrow>
      confidence_scores (snd (detect env clock self graph)) = Map.empty \<and>
      ground_truth (snd (detect env clock self graph)) = Map.empty) \<and>
   (isolation_forest self = Some f \<and>
    node2vec_fit env (n2v_args_of self) graph = (graph, Inr wv) \<and>
    (\<forall>n \<in> fst ` set (nodes graph). wv (str n) \<noteq> None) \<and>
    collect_embeddings wv (map fst (nodes graph)) = (embs, node_list) \<and>
    decision_function f embs = Inr scores \<and> length scores = length embs \<and>
    predict f embs = Inr preds \<and> length preds = length embs \<and>
    (\<forall>nd \<in> set (nodes graph). snd nd ''uav'' \<noteq> Some OtherObj) \<and>
    wf_graph graph \<longrightarrow>
      dom (confidence_scores (snd (detect env clock self graph))) = fst ` set (nodes graph) \<and>
      dom (ground_truth (snd (detect env clock self graph))) = fst ` set (nodes graph))"
proof (intro conjI impI)
  assume "nodes graph = [] \<or> isolation_forest self = None"
  then show "confidence_scores (snd (detect env clock self graph)) = Map.empty"
    and "ground_truth (snd (detect env clock self graph)) = Map.empty"
    by (auto simp: detect_def empty_result_def)
next
  assume h: "isolation_forest self = Some f \<and>
    node2vec_fit env (n2v_args_of self) graph = (graph, Inr wv) \<and>
    (\<forall>n \<in> fst ` set (nodes graph). wv (str n) \<noteq> None) \<and>
    collect_embeddings wv (map fst (nodes graph)) = (embs, node_list) \<and>
    decision_function f embs = Inr scores \<and> length scores = length embs \<and>
    predict f embs = Inr preds \<and> length preds = length embs \<and>
    (\<forall>nd \<in> set (nodes graph). snd nd ''uav'' \<noteq> Some OtherObj) \<and>
    wf_graph graph"
  let ?r = "snd (detect env clock self graph)"
  let ?ns = "map fst (nodes graph)"
  have both: "dom (confidence_scores ?r) = fst ` set (nodes graph) \<and>
              dom (ground_truth ?r) = fst ` set (nodes graph)"
  proof (cases "nodes graph = []")
    case True
    then show ?thesis by (simp add: detect_def empty_result_def)
  next
    case False
    have nl: "node_list = ?ns"
      using collect_embeddings_all [of ?ns wv] h by simp
    have len: "length embs = length node_list"
      using collect_embeddings_length [of wv ?ns] h by simp
    have embs_ne: "embs \<noteq> []" using len nl False by auto
    have scores_ne: "scores \<noteq> []" using embs_ne h by auto
    have "\<forall>n\<in>set ?ns. \<exists>d b. node_attrs graph n = Inr d \<and> node_label d = Inr b"
    proof
      fix n assume "n \<in> set ?ns"
      then obtain d where nd: "(n, d) \<in> set (nodes graph)" by auto
      have wf: "wf_graph graph" using h by simp
      have "node_attrs graph n = Inr d"
        using wf nd by (simp add: wf_graph_def node_attrs_def)
      moreover have "d ''uav'' \<noteq> Some OtherObj" using h nd by force
      then have "\<exists>b. node_label d = Inr b"
        by (auto simp: node_label_def split: option.splits attr_value.splits)
      ultimately show "\<exists>d b. node_attrs graph n = Inr d \<and> node_label d = Inr b" by blast
    qed
    from ground_truth_loop_succeeds [OF this]
    obtain gt where gt: "ground_truth_loop graph ?ns Map.empty = Inr gt" by blast
    have res: "?r =
           \<lparr>detector_name = name self, timestamp = clock 2,
            anomalous_uav_ids =
              snd (score_loop (Min (set scores)) (Max (set scores) - Min (set scores))
                     (zip node_list (zip scores preds)) Map.empty {}),
            confidence_scores =
              fst (score_loop (Min (set scores)) (Max (set scores) - Min (set scores))
                     (zip node_list (zip scores preds)) Map.empty {}),
            ground_truth = gt, detection_time = clock 1 - clock 0\<rparr>"
    proof (rule detect_success)
      show "isolation_forest self = Some f" using h by simp
      show "node2vec_fit env (n2v_args_of self) graph = (graph, Inr wv)" using h by simp
      show "nodes graph \<noteq> []" by (rule False)
      show "collect_embeddings wv ?ns = (embs, node_list)" using h by simp
      show "embs \<noteq> []" by (rule embs_ne)
      show "decision_function f embs = Inr scores" using h by simp
      show "scores \<noteq> []" by (rule scores_ne)
      show "predict f embs = Inr preds" using h by simp
      show "ground_truth_loop graph ?ns Map.empty = Inr gt" by (rule gt)
    qed
    have "dom (confidence_scores ?r) = set node_list"
      unfolding res using h len by (simp add: score_loop_dom fst_set_zip3)
    moreover have "dom (ground_truth ?r) = set ?ns"
      unfolding res using ground_truth_loop_dom [OF gt] by simp
    ultimately show ?thesis using nl by simp
  qed
  from both show "dom (confidence_scores ?r) = fst ` set (nodes graph)" by simp
  from both show "dom (ground_truth ?r) = fst ` set (nodes graph)" by simp
qed

text \<open>
  The claim as first stated (every node is a key of both maps unless the graph is empty)
  fails on an untrained detector: the guard returns the empty result for a graph that has
  nodes.
\<close>

theorem detect_result_keys_counterexample:
  "nodes demo_graph \<noteq> [] \<and> ''a'' \<in> fst ` set (nodes demo_graph) \<and>
   confidence_scores (snd (detect demo_libs demo_clock fresh_detector demo_graph)) ''a'' = None \<and>
   ground_truth (snd (detect demo_libs demo_clock fresh_detector demo_graph)) ''a'' = None"
  by (simp add: detect_def empty_result_def fresh_detector_def demo_graph_def)

theorem detect_result_keys_witness:
  "isolation_forest fresh_detector = None \<and>
   confidence_scores (snd (detect demo_libs demo_clock fresh_detector demo_graph)) = Map.empty \<and>
   ground_truth (snd (detect demo_libs demo_clock fresh_detector demo_graph)) = Map.empty \<and>
   isolation_forest trained_detector = Some demo_forest \<and>
   wf_graph demo_graph \<and>
   dom (confidence_scores (snd (detect demo_libs demo_clock trained_detector demo_graph)))
     = {''a'', ''b'', ''c''} \<and>
   dom (ground_truth (snd (detect demo_libs demo_clock trained_detector demo_graph)))
     = {''a'', ''b'', ''c''}"
proof -
  have u: "isolation_forest fresh_detector = None"
    by (simp add: fresh_detector_def)
  have t: "isolation_forest trained_detector = Some demo_forest"
    by (simp add: demo_defs model_defs)
  have fit: "node2vec_fit demo_libs (n2v_args_of trained_detector) demo_graph
               = (demo_graph, Inr demo_wv)"
    by (simp add: demo_libs_def)
  have ns: "fst ` set (nodes demo_graph) = {''a'', ''b'', ''c''}"
    by (simp add: demo_graph_def)
  have all: "\<forall>n \<in> fst ` set (nodes demo_graph). demo_wv (str n) \<noteq> None"
    unfolding ns by (simp add: demo_wv_def str_def)
  have emb: "collect_embeddings demo_wv (map fst (nodes demo_graph))
               = ([[0.2], [- 0.1], [0.05]], [''a'', ''b'', ''c''])"
    by (simp add: demo_graph_def demo_wv_def str_def)
  have s: "decision_function demo_forest [[0.2], [- 0.1], [0.05]] = Inr [0.2, - 0.1, 0.05]"
    by (simp add: demo_forest_def)
  have pr: "predict demo_forest [[0.2], [- 0.1], [0.05]] = Inr [1, - 1, 1]"
    by (simp add: demo_forest_def)
  have lab: "\<forall>nd \<in> set (nodes demo_graph). snd nd ''uav'' \<noteq> Some OtherObj"
    by (simp add: demo_graph_def)
  have wf: "wf_graph demo_graph"
    by (simp add: wf_graph_def demo_graph_def)
  have a: "confidence_scores (snd (detect demo_libs demo_clock fresh_detector demo_graph))
             = Map.empty \<and>
           ground_truth (snd (detect demo_libs demo_clock fresh_detector demo_graph)) = Map.empty"
    using detect_result_keys [of demo_graph fresh_detector demo_libs demo_clock] u by blast
  have b: "dom (confidence_scores (snd (detect demo_libs demo_clock trained_detector demo_graph)))
             = fst ` set (nodes demo_graph) \<and>
           dom (ground_truth (snd (detect demo_libs demo_clock trained_detector demo_graph)))
             = fst ` set (nodes demo_graph)"
    using detect_result_keys [of demo_graph trained_detector demo_libs demo_clock demo_forest
        demo_wv "[[0.2], [- 0.1], [0.05]]" "[''a'', ''b'', ''c'']" "[0.2, - 0.1, 0.05]"
        "[1, - 1, 1]"]
      t fit all emb s pr lab wf
    by simp
  show ?thesis using u t wf a b ns by simp
qed

text \<open>
  Claim C4. \<^verbatim>\<open>detect\<close> always returns a result: the model has no exceptional outcome,
  because each exit of the source is a \<^verbatim>\<open>return\<close>. Whenever the \<^verbatim>\<open>try\<close> block raises,
  whatever the exception and wherever it is raised (the embedding library, the scoring
  calls of the forest, the minimum of an empty array, the label of an object that is not a
  UAV), the result has an empty flagged set and empty maps, and its detection time is
  still the elapsed time.
\<close>

theorem detect_failure_caught:
  assumes "isolation_forest self = Some f"
    and "nodes graph \<noteq> []"
    and "snd (detect_try env clock self f graph) = Inl e"
  shows "anomalous_uav_ids (snd (detect env clock self graph)) = {} \<and>
         confidence_scores (snd (detect env clock self graph)) = Map.empty \<and>
         ground_truth (snd (detect env clock self graph)) = Map.empty \<and>
         detection_time (snd (detect env clock self graph)) = clock 1 - clock 0"
  using assms by (auto simp: detect_def empty_result_def split: prod.splits)

text \<open>
  A failure of the embedding library and a failure of either scoring call are exceptions
  of the \<^verbatim>\<open>try\<close> block.
\<close>

lemma embedding_failure_raises:
  "snd (node2vec_fit env (n2v_args_of self) graph) = Inl e \<Longrightarrow>
   snd (detect_try env clock self f graph) = Inl e"
  by (auto simp: detect_try_def split: prod.splits sum.splits)

lemma scoring_failure_raises:
  assumes "snd (node2vec_fit env (n2v_args_of self) graph) = Inr wv"
    and "fst (collect_embeddings wv (map fst (nodes (fst (node2vec_fit env (n2v_args_of self) graph))))) = embs"
    and "embs \<noteq> []"
    and "decision_function f embs = Inl e \<or>
         (\<exists>scores. decision_function f embs = Inr scores \<and> predict f embs = Inl e)"
  shows "snd (detect_try env clock self f graph) = Inl e"
  using assms by (auto simp: detect_try_def detect_scoring_def split: prod.splits sum.splits)

theorem detect_failure_caught_witness:
  "isolation_forest trained_detector = Some demo_forest \<and> nodes demo_graph \<noteq> [] \<and>
   snd (detect_try failing_libs demo_clock trained_detector demo_forest demo_graph)
     = Inl (LibraryError ''walks'') \<and>
   confidence_scores (snd (detect failing_libs demo_clock trained_detector demo_graph)) = Map.empty \<and>
   detection_time (snd (detect failing_libs demo_clock trained_detector demo_graph)) = 1"
proof -
  have h1: "isolation_forest trained_detector = Some demo_forest"
    by (simp add: demo_defs model_defs)
  have h2: "nodes demo_graph \<noteq> []"
    by (simp add: demo_graph_def)
  have h3: "snd (detect_try failing_libs demo_clock trained_detector demo_forest demo_graph)
              = Inl (LibraryError ''walks'')"
    by (simp add: detect_try_def failing_libs_def)
  show ?thesis
    using detect_failure_caught [OF h1 h2 h3] h1 h2 h3 by (simp add: demo_clock_def)
qed




text \<open>
  Claim C6. The claim fails on a detector that was trained before: \<^verbatim>\<open>train\<close> with an
  empty sequence returns at line 84 after overwriting \<^verbatim>\<open>self.baseline_graphs\<close> and leaves
  \<^verbatim>\<open>self.isolation_forest\<close> as it was, so the detector still holds the forest of the
  earlier training and the next \<^verbatim>\<open>detect\<close> scores and flags nodes with it. The handler
  at lines 141 to 143 does reset the forest when the embedding library raises.
\<close>

theorem train_empty_keeps_stale_forest:
  "isolation_forest trained_detector = Some demo_forest \<and>
   isolation_forest (train demo_libs trained_detector []) = Some demo_forest \<and>
   baseline_graphs (train demo_libs trained_detector []) = [] \<and>
   confidence_scores
     (snd (detect demo_libs demo_clock (train demo_libs trained_detector []) demo_graph)) ''b''
     = Some 1 \<and>
   anomalous_uav_ids
     (snd (detect demo_libs demo_clock (train demo_libs trained_detector []) demo_graph))
     = {''b''} \<and>
   isolation_forest (train failing_libs trained_detector [demo_graph]) = None"
  by (simp add: demo_defs model_defs)

text \<open>
  In general: the early returns for an empty sequence and for a last graph without nodes
  keep whatever forest the detector held, and a failure of the embedding library clears
  it, for every detector.
\<close>

lemma train_early_return_keeps_forest:
  assumes "clean_graphs = [] \<or> nodes (last clean_graphs) = []"
  shows "isolation_forest (train env self clean_graphs) = isolation_forest self"
  using assms by (auto simp: train_def Let_def)

lemma train_failure_resets_forest:
  assumes "clean_graphs \<noteq> []" and "nodes (last clean_graphs) \<noteq> []"
    and "node2vec_fit env (n2v_args_of self) (last clean_graphs) = (g', Inl e)"
  shows "isolation_forest (train env self clean_graphs) = None"
  using assms by (simp add: train_def Let_def)

text \<open>
  Claim C7. For a call whose result is not the empty result, on a graph with distinct node
  keys that the embedding library leaves as it is: each node without an attribute
  \<^verbatim>\<open>"uav"\<close> has ground truth \<^verbatim>\<open>True\<close>, and each other node carries a UAV and has that
  UAV's \<^verbatim>\<open>is_legitimate\<close> as its ground truth.
\<close>

theorem detect_ground_truth_labels:
  assumes lib: "fst (node2vec_fit env (n2v_args_of self) graph) = graph"
    and wf: "wf_graph graph"
    and nonempty: "snd (detect env clock self graph)
                     \<noteq> empty_result self (clock 1 - clock 0) (clock 2)"
    and node: "(n, d) \<in> set (nodes graph)"
  shows "(d ''uav'' = None \<and>
            ground_truth (snd (detect env clock self graph)) n = Some True) \<or>
         (\<exists>u. d ''uav'' = Some (UAVObj u) \<and>
            ground_truth (snd (detect env clock self graph)) n = Some (is_legitimate u))"
proof -
  let ?r = "snd (detect env clock self graph)"
  from detect_cases [of env clock self graph] nonempty lib
  obtain gt where loop: "ground_truth_loop graph (map fst (nodes graph)) Map.empty = Inr gt"
    and res: "ground_truth ?r = gt"
    by fastforce
  have "n \<in> set (map fst (nodes graph))" using node by force
  from ground_truth_loop_value [OF loop this]
  obtain d' b where d': "node_attrs graph n = Inr d'" and b: "node_label d' = Inr b"
    and gt: "gt n = Some b"
    by blast
  have "d' = d" using node_attrs_wf [OF wf node] d' by simp
  then show ?thesis using node_label_cases [OF b] gt res by auto
qed

theorem detect_ground_truth_labels_witness:
  "fst (node2vec_fit demo_libs (n2v_args_of trained_detector) demo_graph) = demo_graph \<and>
   wf_graph demo_graph \<and>
   ground_truth (snd (detect demo_libs demo_clock trained_detector demo_graph)) ''a'' = Some True \<and>
   ground_truth (snd (detect demo_libs demo_clock trained_detector demo_graph)) ''b'' = Some False \<and>
   ground_truth (snd (detect demo_libs demo_clock trained_detector demo_graph)) ''c'' = Some True"
proof -
  let ?r = "snd (detect demo_libs demo_clock trained_detector demo_graph)"
  have lib: "fst (node2vec_fit demo_libs (n2v_args_of trained_detector) demo_graph) = demo_graph"
    by (simp add: demo_libs_def)
  have wf: "wf_graph demo_graph"
    by (simp add: wf_graph_def demo_graph_def)
  have ne: "?r \<noteq> empty_result trained_detector (demo_clock 1 - demo_clock 0) (demo_clock 2)"
  proof
    assume "?r = empty_result trained_detector (demo_clock 1 - demo_clock 0) (demo_clock 2)"
    then have "anomalous_uav_ids ?r = {}" by (simp add: empty_result_def)
    then show False by (simp add: demo_defs model_defs)
  qed
  have na: "(''a'', [''uav'' \<mapsto> UAVObj \<lparr>is_legitimate = True\<rparr>]) \<in> set (nodes demo_graph)"
    by (simp add: demo_graph_def)
  have nb: "(''b'', [''uav'' \<mapsto> UAVObj \<lparr>is_legitimate = False\<rparr>]) \<in> set (nodes demo_graph)"
    by (simp add: demo_graph_def)
  have nc: "(''c'', Map.empty) \<in> set (nodes demo_graph)"
    by (simp add: demo_graph_def)
  have a: "ground_truth ?r ''a'' = Some True"
    using detect_ground_truth_labels [OF lib wf ne na] by auto
  have b: "ground_truth ?r ''b'' = Some False"
    using detect_ground_truth_labels [OF lib wf ne nb] by auto
  have c: "ground_truth ?r ''c'' = Some True"
    using detect_ground_truth_labels [OF lib wf ne nc] by auto
  show ?thesis using lib wf a b c by simp
qed

text \<open>
  Claim C8. For a non-empty sequence of graphs, everything \<^verbatim>\<open>train\<close> stores comes from
  the last graph, and only \<^verbatim>\<open>self.baseline_graphs\<close> records the whole sequence: \<^verbatim>\<open>train\<close>
  does on the sequence what it does on the one-element sequence of its last graph. When
  the last graph has no nodes nothing else is stored. When the embedding library raises
  on (a copy of) the last graph, the forest is cleared. When it succeeds, the stored model
  is the one fitted on that copy, the stored embeddings and the list \<open>es\<close> given to the
  isolation forest are the vectors of the copy's nodes, and the forest is the one fitted
  on \<open>es\<close> (none if the fit raises, the former one if \<open>es\<close> is empty).
\<close>

theorem train_uses_last_graph:
  assumes ne: "clean_graphs \<noteq> []"
  shows "train env self clean_graphs
           = (train env self [last clean_graphs])\<lparr>baseline_graphs := clean_graphs\<rparr> \<and>
         (nodes (last clean_graphs) = [] \<longrightarrow>
            train env self clean_graphs = self\<lparr>baseline_graphs := clean_graphs\<rparr>) \<and>
         (\<forall>g' e. nodes (last clean_graphs) \<noteq> [] \<and>
            node2vec_fit env (n2v_args_of self) (last clean_graphs) = (g', Inl e) \<longrightarrow>
            train env self clean_graphs
              = self\<lparr>baseline_graphs := clean_graphs, isolation_forest := None\<rparr>) \<and>
         (\<forall>g' m be es. nodes (last clean_graphs) \<noteq> [] \<and>
            node2vec_fit env (n2v_args_of self) (last clean_graphs) = (g', Inr m) \<and>
            train_embeddings m (map fst (nodes g')) (baseline_embeddings self) = (be, es) \<longrightarrow>
            train env self clean_graphs
              = self\<lparr>baseline_graphs := clean_graphs, node2vec_model := Some m,
                     baseline_embeddings := be,
                     isolation_forest :=
                       (if es = [] then isolation_forest self
                        else (case isolation_forest_fit env (contamination self) es of
                                Inl e \<Rightarrow> None | Inr f \<Rightarrow> Some f))\<rparr> \<and>
            es = map (\<lambda>n. the (m (str n)))
                   (filter (\<lambda>n. m (str n) \<noteq> None) (map fst (nodes g'))))"
proof (intro conjI allI impI)
  show "train env self clean_graphs
          = (train env self [last clean_graphs])\<lparr>baseline_graphs := clean_graphs\<rparr>"
    using ne by (auto simp: train_def Let_def split: prod.splits sum.splits)
next
  assume "nodes (last clean_graphs) = []"
  then show "train env self clean_graphs = self\<lparr>baseline_graphs := clean_graphs\<rparr>"
    using ne by (simp add: train_def Let_def)
next
  fix g' e
  assume "nodes (last clean_graphs) \<noteq> [] \<and>
          node2vec_fit env (n2v_args_of self) (last clean_graphs) = (g', Inl e)"
  then show "train env self clean_graphs
               = self\<lparr>baseline_graphs := clean_graphs, isolation_forest := None\<rparr>"
    using ne by (simp add: train_def Let_def)
next
  fix g' m be es
  assume h: "nodes (last clean_graphs) \<noteq> [] \<and>
          node2vec_fit env (n2v_args_of self) (last clean_graphs) = (g', Inr m) \<and>
          train_embeddings m (map fst (nodes g')) (baseline_embeddings self) = (be, es)"
  then show "train env self clean_graphs
           = self\<lparr>baseline_graphs := clean_graphs, node2vec_model := Some m,
                  baseline_embeddings := be,
                  isolation_forest :=
                    (if es = [] then isolation_forest self
                     else (case isolation_forest_fit env (contamination self) es of
                             Inl e \<Rightarrow> None | Inr f \<Rightarrow> Some f))\<rparr>"
    using ne by (simp add: train_def Let_def split: sum.splits)
  have "es = snd (train_embeddings m (map fst (nodes g')) (baseline_embeddings self))"
    using h by simp
  also have "\<dots> = fst (collect_embeddings m (map fst (nodes g')))"
    by (rule train_embeddings_list)
  also have "\<dots> = map (\<lambda>n. the (m (str n))) (filter (\<lambda>n. m (str n) \<noteq> None) (map fst (nodes g')))"
    unfolding collect_embeddings_map collect_embeddings_filter ..
  finally show "es = map (\<lambda>n. the (m (str n)))
                          (filter (\<lambda>n. m (str n) \<noteq> None) (map fst (nodes g')))" .
qed

theorem train_uses_last_graph_witness:
  "[\<lparr>nodes = [], edges = []\<rparr>, demo_graph] \<noteq> [] \<and>
   nodes (last [\<lparr>nodes = [], edges = []\<rparr>, demo_graph]) \<noteq> [] \<and>
   node2vec_fit demo_libs (n2v_args_of fresh_detector) (last [\<lparr>nodes = [], edges = []\<rparr>, demo_graph])
     = (demo_graph, Inr demo_wv) \<and>
   train_embeddings demo_wv (map fst (nodes demo_graph)) (baseline_embeddings fresh_detector)
     = (demo_wv, [[0.2], [- 0.1], [0.05]]) \<and>
   train demo_libs fresh_detector [\<lparr>nodes = [], edges = []\<rparr>, demo_graph]
     = fresh_detector\<lparr>baseline_graphs := [\<lparr>nodes = [], edges = []\<rparr>, demo_graph],
         node2vec_model := Some demo_wv, baseline_embeddings := demo_wv,
         isolation_forest := Some demo_forest\<rparr> \<and>
   train failing_libs trained_detector [demo_graph]
     = trained_detector\<lparr>baseline_graphs := [demo_graph], isolation_forest := None\<rparr>"
proof -
  have h: "[\<lparr>nodes = [], edges = []\<rparr>, demo_graph] \<noteq> []"
    by simp
  have n: "nodes (last [\<lparr>nodes = [], edges = []\<rparr>, demo_graph]) \<noteq> []"
    by (simp add: demo_graph_def)
  have f: "node2vec_fit demo_libs (n2v_args_of fresh_detector)
             (last [\<lparr>nodes = [], edges = []\<rparr>, demo_graph]) = (demo_graph, Inr demo_wv)"
    by (simp add: demo_libs_def)
  have e: "train_embeddings demo_wv (map fst (nodes demo_graph)) (baseline_embeddings fresh_detector)
             = (demo_wv, [[0.2], [- 0.1], [0.05]])"
    by (simp add: demo_graph_def demo_wv_def fresh_detector_def str_def)
  have i: "isolation_forest_fit demo_libs (contamination fresh_detector) [[0.2], [- 0.1], [0.05]]
             = Inr demo_forest"
    by (simp add: demo_libs_def)
  have h2: "[demo_graph] \<noteq> []"
    by simp
  have n2: "nodes (last [demo_graph]) \<noteq> []"
    by (simp add: demo_graph_def)
  have f2: "node2vec_fit failing_libs (n2v_args_of trained_detector) (last [demo_graph])
              = (demo_graph, Inl (LibraryError ''walks''))"
    by (simp add: failing_libs_def)
  from train_uses_last_graph [OF h, of demo_libs fresh_detector]
  have a: "\<forall>g' m be es. nodes (last [\<lparr>nodes = [], edges = []\<rparr>, demo_graph]) \<noteq> [] \<and>
            node2vec_fit demo_libs (n2v_args_of fresh_detector)
              (last [\<lparr>nodes = [], edges = []\<rparr>, demo_graph]) = (g', Inr m) \<and>
            train_embeddings m (map fst (nodes g')) (baseline_embeddings fresh_detector) = (be, es) \<longrightarrow>
            train demo_libs fresh_detector [\<lparr>nodes = [], edges = []\<rparr>, demo_graph]
              = fresh_detector\<lparr>baseline_graphs := [\<lparr>nodes = [], edges = []\<rparr>, demo_graph],
                     node2vec_model := Some m, baseline_embeddings := be,
                     isolation_forest :=
                       (if es = [] then isolation_forest fresh_detector
                        else (case isolation_forest_fit demo_libs (contamination fresh_detector) es of
                                Inl e \<Rightarrow> None | Inr f \<Rightarrow> Some f))\<rparr> \<and>
            es = map (\<lambda>n. the (m (str n)))
                   (filter (\<lambda>n. m (str n) \<noteq> None) (map fst (nodes g')))"
    by (elim conjE)
  from a [rule_format, of demo_graph demo_wv demo_wv "[[0.2], [- 0.1], [0.05]]"] n f e
  have t: "train demo_libs fresh_detector [\<lparr>nodes = [], edges = []\<rparr>, demo_graph]
           = fresh_detector\<lparr>baseline_graphs := [\<lparr>nodes = [], edges = []\<rparr>, demo_graph],
               node2vec_model := Some demo_wv, baseline_embeddings := demo_wv,
               isolation_forest :=
                 (if [[0.2], [- 0.1], [0.05 :: real]] = [] then isolation_forest fresh_detector
                  else (case isolation_forest_fit demo_libs (contamination fresh_detector)
                               [[0.2], [- 0.1], [0.05]] of
                          Inl e \<Rightarrow> None | Inr f \<Rightarrow> Some f))\<rparr>"
    by blast
  have t': "train demo_libs fresh_detector [\<lparr>nodes = [], edges = []\<rparr>, demo_graph]
           = fresh_detector\<lparr>baseline_graphs := [\<lparr>nodes = [], edges = []\<rparr>, demo_graph],
               node2vec_model := Some demo_wv, baseline_embeddings := demo_wv,
               isolation_forest := Some demo_forest\<rparr>"
    using t unfolding i by simp
  from train_uses_last_graph [OF h2, of failing_libs trained_detector]
  have b: "\<forall>g' e. nodes (last [demo_graph]) \<noteq> [] \<and>
            node2vec_fit failing_libs (n2v_args_of trained_detector) (last [demo_graph]) = (g', Inl e) \<longrightarrow>
            train failing_libs trained_detector [demo_graph]
              = trained_detector\<lparr>baseline_graphs := [demo_graph], isolation_forest := None\<rparr>"
    by (elim conjE)
  from b [rule_format, of demo_graph "LibraryError ''walks''"] n2 f2
  have t2: "train failing_libs trained_detector [demo_graph]
              = trained_detector\<lparr>baseline_graphs := [demo_graph], isolation_forest := None\<rparr>"
    by blast
  show ?thesis using h n f e t' t2 by blast
qed




text \<open>
  Claim C10. In every result the flagged identities are keys of the confidence map: the
  loop flags a node only in the iteration that stores its score. The keys of the
  confidence map are nodes of the graph, provided that the embedding library leaves
  the graph as it is.
\<close>

theorem detect_flagged_have_scores:
  assumes lib: "fst (node2vec_fit env (n2v_args_of self) graph) = graph"
  shows "anomalous_uav_ids (snd (detect env clock self graph))
           \<subseteq> dom (confidence_scores (snd (detect env clock self graph))) \<and>
         dom (confidence_scores (snd (detect env clock self graph)))
           \<subseteq> fst ` set (nodes graph)"
proof -
  let ?r = "snd (detect env clock self graph)"
  consider (empty) "?r = empty_result self (clock 1 - clock 0) (clock 2)"
    | (scored) wv nl embs scores preds where
        "collect_embeddings wv (map fst (nodes graph)) = (embs, nl)"
        "anomalous_uav_ids ?r =
           snd (score_loop (Min (set scores)) (Max (set scores) - Min (set scores))
                  (zip nl (zip scores preds)) Map.empty {})"
        "confidence_scores ?r =
           fst (score_loop (Min (set scores)) (Max (set scores) - Min (set scores))
                  (zip nl (zip scores preds)) Map.empty {})"
    using detect_cases [of env clock self graph] lib by fastforce
  then show ?thesis
  proof cases
    case empty
    then show ?thesis by (simp add: empty_result_def)
  next
    case scored
    have "set nl \<subseteq> set (map fst (nodes graph))"
      using collect_embeddings_subset [of wv "map fst (nodes graph)"] scored(1) by simp
    moreover have "fst ` set (zip nl (zip scores preds)) \<subseteq> set nl"
      by (auto dest: set_zip_leftD)
    ultimately have "dom (confidence_scores ?r) \<subseteq> fst ` set (nodes graph)"
      unfolding scored(3) score_loop_dom by auto
    moreover have "anomalous_uav_ids ?r \<subseteq> dom (confidence_scores ?r)"
      unfolding scored(2,3) by (rule score_loop_flagged) simp
    ultimately show ?thesis by simp
  qed
qed

theorem detect_flagged_have_scores_witness:
  "fst (node2vec_fit demo_libs (n2v_args_of trained_detector) demo_graph) = demo_graph \<and>
   anomalous_uav_ids (snd (detect demo_libs demo_clock trained_detector demo_graph)) = {''b''} \<and>
   {''b''} \<subseteq> dom (confidence_scores (snd (detect demo_libs demo_clock trained_detector demo_graph))) \<and>
   dom (confidence_scores (snd (detect demo_libs demo_clock trained_detector demo_graph)))
     \<subseteq> {''a'', ''b'', ''c''}"
proof -
  have h: "fst (node2vec_fit demo_libs (n2v_args_of trained_detector) demo_graph) = demo_graph"
    by (simp add: demo_libs_def)
  have fl: "anomalous_uav_ids (snd (detect demo_libs demo_clock trained_detector demo_graph))
              = {''b''}"
    by (simp add: demo_defs model_defs)
  have ns: "fst ` set (nodes demo_graph) = {''a'', ''b'', ''c''}"
    by (simp add: demo_graph_def)
  show ?thesis
    using detect_flagged_have_scores [OF h, of demo_clock] h fl ns by simp
qed

end
